theory Spec2Isabelle
  imports Main "HOL-Library.Word"
begin

section \<open>HashmapBuffer: the slot pool of the hash map\<close>

text \<open>
  A shallow embedding of \<^verbatim>\<open>cpp/open3d/core/hashmap/HashmapBuffer.h\<close>. The class bundles
  the free-list tensor, the device-specific heap-top counter, the key tensor and the list
  of value tensors. Member functions marked \<^verbatim>\<open>const\<close> become functions of the buffer
  that return a value only; \<^verbatim>\<open>utility::LogError\<close> throws, which is the \<open>Inl\<close> branch
  of a sum.
\<close>

subsection \<open>Machine integers\<close>

text \<open>
  \<^verbatim>\<open>typedef uint32_t addr_t\<close>; \<^verbatim>\<open>std::atomic<int>\<close> and \<^verbatim>\<open>Dtype::Int32\<close> hold a 32-bit
  two's complement value, read through \<open>sint\<close>. The \<^verbatim>\<open>int64_t\<close> and \<^verbatim>\<open>size_t\<close> arguments
  are never used in arithmetic by this class and are carried as \<open>int\<close> and \<open>nat\<close>.
\<close>

type_synonym addr_t = "32 word"
type_synonym int32 = "32 word"
type_synonym blob = "8 word list"

subsection \<open>Device, Dtype and Tensor\<close>

datatype DeviceType = CPU | CUDA

record Device =
  device_type :: DeviceType
  device_id :: int

definition GetType :: "Device \<Rightarrow> DeviceType" where
  "GetType d = device_type d"

datatype DtypeCode = Undefined | Bool | SInt | UInt | Float | Object

text \<open>
  Modelled from the spec: \<^verbatim>\<open>open3d/core/Dtype.h\<close> is not part of the sources. The spec
  describes each array by its element byte size only; a \<^verbatim>\<open>Dtype\<close> is the triple the
  constructor calls pass: a code, a byte size and a name.
\<close>

record Dtype =
  dtype_code :: DtypeCode
  byte_size :: int
  dtype_name :: string

text \<open>
  Modelled from the spec: the constructor \<^verbatim>\<open>Dtype(code, byte_size, name)\<close>, the accessor
  \<^verbatim>\<open>ByteSize()\<close> and the constants \<^verbatim>\<open>core::UInt32\<close>, \<^verbatim>\<open>Dtype::Int32\<close> and
  \<^verbatim>\<open>Dtype::Undefined\<close> of the missing \<^verbatim>\<open>Dtype.h\<close>. \<open>SInt\<close> stands for the code \<^verbatim>\<open>Int\<close>.
\<close>

definition Dtype_new :: "DtypeCode \<Rightarrow> int \<Rightarrow> string \<Rightarrow> Dtype" where
  "Dtype_new code bytes name = \<lparr>dtype_code = code, byte_size = bytes, dtype_name = name\<rparr>"

definition ByteSize :: "Dtype \<Rightarrow> int" where
  "ByteSize dt = byte_size dt"

definition UInt32 :: Dtype where
  "UInt32 = Dtype_new UInt 4 ''UInt32''"

definition Int32 :: Dtype where
  "Int32 = Dtype_new SInt 4 ''Int32''"

definition Dtype_Undefined :: Dtype where
  "Dtype_Undefined = Dtype_new Undefined 1 ''Undefined''"

text \<open>
  Modelled from the spec: \<^verbatim>\<open>open3d/core/Tensor.h\<close> is not part of the sources. The spec
  asks of it the construction of a fixed-length typed array on a named execution context
  and element access by address. A tensor is its length, its element type, its device and
  its cells; a cell is \<open>None\<close> until it is written, because constructing a tensor from a
  shape allocates the storage and writes nothing to it.
\<close>

record 'a Tensor =
  tensor_length :: int
  tensor_dtype :: Dtype
  tensor_device :: Device
  tensor_cells :: "'a option list"

text \<open>
  Modelled from the spec: \<^verbatim>\<open>Tensor({n}, dtype, device)\<close> of the missing \<^verbatim>\<open>Tensor.h\<close>, the
  construction of a fixed-length typed array on a device.
\<close>

definition Tensor_new :: "int \<Rightarrow> Dtype \<Rightarrow> Device \<Rightarrow> 'a Tensor" where
  "Tensor_new n dt d =
     \<lparr>tensor_length = n, tensor_dtype = dt, tensor_device = d,
      tensor_cells = replicate (nat n) None\<rparr>"

text \<open>
  Modelled from the spec: the default constructor of the missing \<^verbatim>\<open>Tensor.h\<close>. A
  default-constructed tensor (the member \<^verbatim>\<open>Tensor cuda;\<close>) holds no element.
\<close>

definition Tensor_default :: "int32 Tensor" where
  "Tensor_default = Tensor_new 0 Dtype_Undefined \<lparr>device_type = CPU, device_id = 0\<rparr>"

text \<open>
  Modelled from the spec: \<^verbatim>\<open>GetDevice()\<close>, \<^verbatim>\<open>GetLength()\<close> and \<^verbatim>\<open>GetDtype()\<close> of the missing
  \<^verbatim>\<open>Tensor.h\<close>: what an array exposes of its device, element count and element type.
\<close>

definition Tensor_GetDevice :: "'a Tensor \<Rightarrow> Device" where
  "Tensor_GetDevice t = tensor_device t"

definition Tensor_GetLength :: "'a Tensor \<Rightarrow> int" where
  "Tensor_GetLength t = tensor_length t"

definition Tensor_GetDtype :: "'a Tensor \<Rightarrow> Dtype" where
  "Tensor_GetDtype t = tensor_dtype t"

text \<open>
  Modelled from the spec: element access by address, of the missing \<^verbatim>\<open>Tensor.h\<close>.
  \<^verbatim>\<open>t[i].Item<T>()\<close> is the value of cell \<open>i\<close>; it is \<open>None\<close> when there is no such cell
  or when the cell has never been written (the read has no determined value).
\<close>

definition Tensor_Item :: "'a Tensor \<Rightarrow> nat \<Rightarrow> 'a option" where
  "Tensor_Item t i = (if i < length (tensor_cells t) then tensor_cells t ! i else None)"

text \<open>
  Modelled from the spec: element access by address, of the missing \<^verbatim>\<open>Tensor.h\<close>. A write
  to cell \<open>i\<close>; a tensor without such a cell is left as it is.
\<close>

definition Tensor_SetItem :: "'a Tensor \<Rightarrow> nat \<Rightarrow> 'a \<Rightarrow> 'a Tensor" where
  "Tensor_SetItem t i v =
     (if i < length (tensor_cells t) then t\<lparr>tensor_cells := (tensor_cells t)[i := Some v]\<rparr>
      else t)"

subsection \<open>std::to_string on an unsigned index\<close>

definition digit_char :: "nat \<Rightarrow> char" where
  "digit_char d = ''0123456789'' ! d"

fun to_string :: "nat \<Rightarrow> string" where
  "to_string n =
     (if n < 10 then [digit_char n] else to_string (n div 10) @ [digit_char (n mod 10)])"

declare to_string.simps [simp del]

subsection \<open>The class\<close>

text \<open>
  \<^verbatim>\<open>struct HeapTop { Tensor cuda; std::atomic<int> cpu = {0}; }\<close>. The members
  \<^verbatim>\<open>heap_\<close>, \<^verbatim>\<open>heap_top_\<close>, \<^verbatim>\<open>key_buffer_\<close> and \<^verbatim>\<open>value_buffers_\<close> of the class are the
  fields \<open>buf_heap\<close>, \<open>buf_heap_top\<close>, \<open>buf_key_buffer\<close> and \<open>buf_value_buffers\<close>.
\<close>

record HeapTop =
  cuda :: "int32 Tensor"
  cpu :: int32

definition HeapTop_default :: HeapTop where
  "HeapTop_default = \<lparr>cuda = Tensor_default, cpu = 0\<rparr>"

record HashmapBuffer =
  buf_heap :: "addr_t Tensor"
  buf_heap_top :: HeapTop
  buf_key_buffer :: "blob Tensor"
  buf_value_buffers :: "blob Tensor list"

text \<open>
  The loop of the constructor over \<^verbatim>\<open>dsize_values\<close>: \<open>i\<close> is the loop index and the last
  argument is \<^verbatim>\<open>value_buffers_\<close> so far.
\<close>

function push_value_buffers ::
  "int \<Rightarrow> int list \<Rightarrow> Device \<Rightarrow> nat \<Rightarrow> blob Tensor list \<Rightarrow> blob Tensor list" where
  "push_value_buffers capacity dsize_values device i value_buffers =
     (if i < length dsize_values
      then let dsize_value = dsize_values ! i;
               value_buffer_i =
                 Tensor_new capacity
                   (Dtype_new Object dsize_value (''_hash_v_'' @ to_string i)) device
           in push_value_buffers capacity dsize_values device (i + 1)
                (value_buffers @ [value_buffer_i])
      else value_buffers)"
  by pat_completeness auto
termination
  by (relation "measure (\<lambda>(capacity, dsize_values, device, i, value_buffers).
        length dsize_values - i)") auto

declare push_value_buffers.simps [simp del]

definition HashmapBuffer :: "int \<Rightarrow> int \<Rightarrow> int list \<Rightarrow> Device \<Rightarrow> HashmapBuffer" where
  "HashmapBuffer capacity dsize_key dsize_values device =
     (let heap = Tensor_new capacity UInt32 device;
          key_buffer = Tensor_new capacity (Dtype_new Object dsize_key ''_hash_k'') device;
          value_buffers = push_value_buffers capacity dsize_values device 0 [];
          heap_top = (if GetType device = CUDA
                      then HeapTop_default\<lparr>cuda := Tensor_new 1 Int32 device\<rparr>
                      else HeapTop_default)
      in \<lparr>buf_heap = heap, buf_heap_top = heap_top, buf_key_buffer = key_buffer,
          buf_value_buffers = value_buffers\<rparr>)"

definition GetDevice :: "HashmapBuffer \<Rightarrow> Device" where
  "GetDevice b = Tensor_GetDevice (buf_heap b)"

definition GetCapacity :: "HashmapBuffer \<Rightarrow> int" where
  "GetCapacity b = Tensor_GetLength (buf_heap b)"

definition GetKeyDsize :: "HashmapBuffer \<Rightarrow> int" where
  "GetKeyDsize b = ByteSize (Tensor_GetDtype (buf_key_buffer b))"

definition GetValueDsizes :: "HashmapBuffer \<Rightarrow> int list" where
  "GetValueDsizes b =
     foldl (\<lambda>value_dsizes value_buffer.
              value_dsizes @ [ByteSize (Tensor_GetDtype value_buffer)])
       [] (buf_value_buffers b)"

definition GetIndexHeap :: "HashmapBuffer \<Rightarrow> addr_t Tensor" where
  "GetIndexHeap b = buf_heap b"

definition GetHeapTop :: "HashmapBuffer \<Rightarrow> HeapTop" where
  "GetHeapTop b = buf_heap_top b"

definition GetHeapTopIndex :: "HashmapBuffer \<Rightarrow> int32 option" where
  "GetHeapTopIndex b =
     (if GetType (Tensor_GetDevice (buf_heap b)) = CUDA
      then Tensor_Item (cuda (buf_heap_top b)) 0
      else Some (cpu (buf_heap_top b)))"

definition GetKeyBuffer :: "HashmapBuffer \<Rightarrow> blob Tensor" where
  "GetKeyBuffer b = buf_key_buffer b"

definition GetValueBuffers :: "HashmapBuffer \<Rightarrow> blob Tensor list" where
  "GetValueBuffers b = buf_value_buffers b"

datatype error = PoolExhausted | OutOfRange nat nat

text \<open>
  \<^verbatim>\<open>LogError("Value buffer index out-of-bound ({} >= {}).", i, value_buffers_.size())\<close>
  is \<open>OutOfRange i n\<close>.
\<close>

definition GetValueBuffer :: "HashmapBuffer \<Rightarrow> nat \<Rightarrow> error + blob Tensor" where
  "GetValueBuffer b i =
     (if i \<ge> length (buf_value_buffers b)
      then Inl (OutOfRange i (length (buf_value_buffers b)))
      else Inr (buf_value_buffers b ! i))"

subsection \<open>What a holder of the handles can change\<close>

text \<open>
  The members are \<^verbatim>\<open>protected\<close> and every member function is \<^verbatim>\<open>const\<close>, except
  \<^verbatim>\<open>GetHeapTop\<close>, which returns a reference to the counter structure. The tensors that
  \<^verbatim>\<open>GetIndexHeap\<close>, \<^verbatim>\<open>GetKeyBuffer\<close>, \<^verbatim>\<open>GetValueBuffers\<close> and \<^verbatim>\<open>GetValueBuffer\<close> return
  share their storage with the members. So the state changes open to a caller are: a store
  to the host counter, a write to or a replacement of the device counter tensor, and a
  write to a cell of the heap, of the key buffer or of a value buffer.
\<close>

datatype operation =
    StoreHeapTopCpu int32
  | WriteHeapTopCuda int32
  | AssignHeapTopCuda "int32 Tensor"
  | WriteHeap nat addr_t
  | WriteKey nat blob
  | WriteValue nat nat blob

fun apply_operation :: "operation \<Rightarrow> HashmapBuffer \<Rightarrow> HashmapBuffer" where
  "apply_operation (StoreHeapTopCpu v) b =
     b\<lparr>buf_heap_top := (buf_heap_top b)\<lparr>cpu := v\<rparr>\<rparr>"
| "apply_operation (WriteHeapTopCuda v) b =
     b\<lparr>buf_heap_top := (buf_heap_top b)\<lparr>cuda := Tensor_SetItem (cuda (buf_heap_top b)) 0 v\<rparr>\<rparr>"
| "apply_operation (AssignHeapTopCuda t) b =
     b\<lparr>buf_heap_top := (buf_heap_top b)\<lparr>cuda := t\<rparr>\<rparr>"
| "apply_operation (WriteHeap i a) b =
     b\<lparr>buf_heap := Tensor_SetItem (buf_heap b) i a\<rparr>"
| "apply_operation (WriteKey i k) b =
     b\<lparr>buf_key_buffer := Tensor_SetItem (buf_key_buffer b) i k\<rparr>"
| "apply_operation (WriteValue j i v) b =
     (if j < length (buf_value_buffers b)
      then b\<lparr>buf_value_buffers :=
               (buf_value_buffers b)[j := Tensor_SetItem (buf_value_buffers b ! j) i v]\<rparr>
      else b)"

definition apply_operations :: "operation list \<Rightarrow> HashmapBuffer \<Rightarrow> HashmapBuffer" where
  "apply_operations ops b = fold apply_operation ops b"

text \<open>
  What the class exposes of a tensor besides its cells: length, element type and device.
\<close>

definition tensor_header :: "'a Tensor \<Rightarrow> int \<times> Dtype \<times> Device" where
  "tensor_header t = (tensor_length t, tensor_dtype t, tensor_device t)"

definition buffer_headers ::
  "HashmapBuffer \<Rightarrow>
     (int \<times> Dtype \<times> Device) \<times> (int \<times> Dtype \<times> Device) \<times> (int \<times> Dtype \<times> Device) list" where
  "buffer_headers b =
     (tensor_header (buf_heap b), tensor_header (buf_key_buffer b),
      map tensor_header (buf_value_buffers b))"

text \<open>The number of cells that each array of the pool holds.\<close>

definition buffer_cell_counts :: "HashmapBuffer \<Rightarrow> nat \<times> nat \<times> nat list" where
  "buffer_cell_counts b =
     (length (tensor_cells (buf_heap b)), length (tensor_cells (buf_key_buffer b)),
      map (\<lambda>t. length (tensor_cells t)) (buf_value_buffers b))"

section \<open>The free-list protocol\<close>

text \<open>
  Modelled from the spec: the functions that allocate and free a slot address, and the
  code that fills the free list, are not part of the sources; the header holds the storage
  they work on. The definitions below follow sections 3 and 4.1 of the specification: the
  heap is an array of slot addresses, the heap top is a non-negative integer, the free
  addresses are \<open>heap[0 .. heap_top - 1]\<close>, initially \<open>heap[i] = i\<close> and
  \<open>heap_top = capacity\<close>; Allocate fails with PoolExhausted when \<open>heap_top = 0\<close> and
  otherwise decrements \<open>heap_top\<close> and returns \<open>heap[heap_top]\<close>; Free writes the
  address into \<open>heap[heap_top]\<close> and then increments \<open>heap_top\<close>. Addresses and
  the heap top are the specification's unbounded integers.

  The comment at the head of the header draws the other orientation: the counter of a fresh
  heap at 0, one step up with each Malloc, one step down with Free. No function of the
  header fixes either; the definitions here are the specification's.
\<close>

text \<open>
  Modelled from the spec: the state of the allocator, the heap array and the heap top.
\<close>

record FreeList =
  heap :: "nat list"
  heap_top :: nat

text \<open>
  Modelled from the spec: the initial state, \<open>heap[i] = i\<close> for all \<open>i\<close> and
  \<open>heap_top = capacity\<close>. The code that fills the heap is not part of the sources.
\<close>

definition InitialFreeList :: "nat \<Rightarrow> FreeList" where
  "InitialFreeList capacity = \<lparr>heap = [0..<capacity], heap_top = capacity\<rparr>"

text \<open>
  Modelled from the spec: Allocate, which is not part of the sources. The result is the
  outcome of the call and the state after it.
\<close>

definition Allocate :: "FreeList \<Rightarrow> (error + nat) \<times> FreeList" where
  "Allocate s =
     (if heap_top s = 0 then (Inl PoolExhausted, s)
      else let s' = s\<lparr>heap_top := heap_top s - 1\<rparr>
           in (Inr (heap s' ! heap_top s'), s'))"

text \<open>
  Modelled from the spec: Free, which is not part of the sources.
\<close>

definition Free :: "nat \<Rightarrow> FreeList \<Rightarrow> FreeList" where
  "Free address s =
     (let s' = s\<lparr>heap := (heap s)[heap_top s := address]\<rparr>
      in s'\<lparr>heap_top := heap_top s' + 1\<rparr>)"

text \<open>The free set: the addresses in \<open>heap[0 .. heap_top - 1]\<close>.\<close>

definition free_set :: "FreeList \<Rightarrow> nat set" where
  "free_set s = set (take (heap_top s) (heap s))"

text \<open>
  The invariant of section 3 for capacity \<open>c\<close>: the heap has \<open>c\<close> entries,
  \<open>heap_top \<le> c\<close>, and the free region holds pairwise distinct addresses below \<open>c\<close>.
\<close>

definition valid_state :: "nat \<Rightarrow> FreeList \<Rightarrow> bool" where
  "valid_state c s \<longleftrightarrow>
     length (heap s) = c \<and> heap_top s \<le> c \<and>
     distinct (take (heap_top s) (heap s)) \<and>
     list_all (\<lambda>a. a < c) (take (heap_top s) (heap s))"


text \<open>
  A sequence of calls. \<open>run_calls\<close> carries the addresses allocated by the sequence and not
  yet freed; it is \<open>None\<close> when an Allocate finds the pool exhausted (over-allocation) or a
  Free names an address that the sequence does not hold (a double free, or a free of an
  address it never allocated). The sequence is balanced when it ends holding nothing.
\<close>

datatype call = CallAllocate | CallFree nat

fun run_calls :: "call list \<Rightarrow> FreeList \<Rightarrow> nat list \<Rightarrow> (FreeList \<times> nat list) option" where
  "run_calls [] s held = Some (s, held)"
| "run_calls (CallAllocate # cs) s held =
     (case Allocate s of
        (Inl e, s') \<Rightarrow> None
      | (Inr a, s') \<Rightarrow> run_calls cs s' (a # held))"
| "run_calls (CallFree a # cs) s held =
     (if a \<in> set held then run_calls cs (Free a s) (remove1 a held) else None)"

definition balanced :: "call list \<Rightarrow> FreeList \<Rightarrow> FreeList \<Rightarrow> bool" where
  "balanced cs s s' \<longleftrightarrow> run_calls cs s [] = Some (s', [])"

subsection \<open>The allocator state that a buffer stores\<close>



section \<open>Properties of the class\<close>

subsection \<open>The constructor and the state changes\<close>

lemma push_value_buffers_eq:
  "push_value_buffers c ds d i acc =
     acc @ map (\<lambda>j. Tensor_new c (Dtype_new Object (ds ! j) (''_hash_v_'' @ to_string j)) d)
             [i..<length ds]"
proof (induction c ds d i acc rule: push_value_buffers.induct)
  case (1 c ds d i acc)
  show ?case
  proof (cases "i < length ds")
    case True
    then show ?thesis
      using "1.IH" [OF True refl refl]
      by (subst push_value_buffers.simps) (simp add: upt_conv_Cons Let_def)
  next
    case False
    then show ?thesis by (subst push_value_buffers.simps) simp
  qed
qed

lemma foldl_snoc_map: "foldl (\<lambda>acc x. acc @ [f x]) a xs = a @ map f xs"
  by (induction xs arbitrary: a) simp_all

lemma buf_value_buffers_ctor:
  "buf_value_buffers (HashmapBuffer c k ds d) =
     map (\<lambda>j. Tensor_new c (Dtype_new Object (ds ! j) (''_hash_v_'' @ to_string j)) d)
       [0..<length ds]"
  by (simp add: HashmapBuffer_def Let_def push_value_buffers_eq)

lemma GetValueDsizes_ctor: "GetValueDsizes (HashmapBuffer c k ds d) = ds"
  by (simp add: GetValueDsizes_def foldl_snoc_map buf_value_buffers_ctor
      ByteSize_def Tensor_GetDtype_def Tensor_new_def Dtype_new_def o_def map_nth)

lemma tensor_header_SetItem: "tensor_header (Tensor_SetItem t i v) = tensor_header t"
  by (simp add: tensor_header_def Tensor_SetItem_def)

lemma buffer_headers_apply_operation:
  "buffer_headers (apply_operation op b) = buffer_headers b"
proof (cases op)
  case (WriteValue j i v)
  show ?thesis
  proof (cases "j < length (buf_value_buffers b)")
    case True
    then have "(map tensor_header (buf_value_buffers b))
                 [j := tensor_header (Tensor_SetItem (buf_value_buffers b ! j) i v)]
               = map tensor_header (buf_value_buffers b)"
      by (simp add: tensor_header_SetItem list_update_same_conv)
    then show ?thesis
      using True by (simp add: WriteValue buffer_headers_def map_update)
  next
    case False
    then show ?thesis by (simp add: WriteValue)
  qed
qed (simp_all add: buffer_headers_def tensor_header_SetItem)

lemma buffer_headers_apply_operations:
  "buffer_headers (apply_operations ops b) = buffer_headers b"
  unfolding apply_operations_def
  by (induction ops arbitrary: b) (simp_all add: buffer_headers_apply_operation)

lemma accessors_from_headers:
  assumes "buffer_headers b = buffer_headers b'"
  shows "GetCapacity b = GetCapacity b'" "GetKeyDsize b = GetKeyDsize b'"
    "GetValueDsizes b = GetValueDsizes b'" "GetDevice b = GetDevice b'"
    "Tensor_GetLength (buf_key_buffer b) = Tensor_GetLength (buf_key_buffer b')"
    "map Tensor_GetLength (buf_value_buffers b) = map Tensor_GetLength (buf_value_buffers b')"
    "length (buf_value_buffers b) = length (buf_value_buffers b')"
proof -
  from assms have h: "tensor_header (buf_heap b) = tensor_header (buf_heap b')"
    and k: "tensor_header (buf_key_buffer b) = tensor_header (buf_key_buffer b')"
    and v: "map tensor_header (buf_value_buffers b) = map tensor_header (buf_value_buffers b')"
    by (simp_all add: buffer_headers_def)
  show "GetCapacity b = GetCapacity b'" "GetDevice b = GetDevice b'"
    using h by (simp_all add: GetCapacity_def GetDevice_def tensor_header_def
        Tensor_GetLength_def Tensor_GetDevice_def)
  show "GetKeyDsize b = GetKeyDsize b'"
    "Tensor_GetLength (buf_key_buffer b) = Tensor_GetLength (buf_key_buffer b')"
    using k by (simp_all add: GetKeyDsize_def tensor_header_def Tensor_GetDtype_def
        Tensor_GetLength_def)
  have "map (\<lambda>t. ByteSize (fst (snd (tensor_header t)))) (buf_value_buffers b)
        = map (\<lambda>t. ByteSize (fst (snd (tensor_header t)))) (buf_value_buffers b')"
    using arg_cong [OF v, of "map (\<lambda>h. ByteSize (fst (snd h)))"] by (simp add: o_def)
  then show "GetValueDsizes b = GetValueDsizes b'"
    by (simp add: GetValueDsizes_def foldl_snoc_map tensor_header_def Tensor_GetDtype_def)
  have "map (\<lambda>t. fst (tensor_header t)) (buf_value_buffers b)
        = map (\<lambda>t. fst (tensor_header t)) (buf_value_buffers b')"
    using arg_cong [OF v, of "map fst"] by (simp add: o_def)
  then show "map Tensor_GetLength (buf_value_buffers b) = map Tensor_GetLength (buf_value_buffers b')"
    by (simp add: tensor_header_def Tensor_GetLength_def [abs_def])
  show "length (buf_value_buffers b) = length (buf_value_buffers b')"
    using arg_cong [OF v, of length] by simp
qed

lemma ctor_accessors:
  "GetCapacity (HashmapBuffer c k ds d) = c"
  "GetKeyDsize (HashmapBuffer c k ds d) = k"
  "GetDevice (HashmapBuffer c k ds d) = d"
  "Tensor_GetLength (buf_key_buffer (HashmapBuffer c k ds d)) = c"
  "map Tensor_GetLength (buf_value_buffers (HashmapBuffer c k ds d)) = replicate (length ds) c"
  "length (buf_value_buffers (HashmapBuffer c k ds d)) = length ds"
proof -
  show "map Tensor_GetLength (buf_value_buffers (HashmapBuffer c k ds d)) = replicate (length ds) c"
    by (simp add: buf_value_buffers_ctor Tensor_GetLength_def Tensor_new_def o_def map_replicate_const)
  show "length (buf_value_buffers (HashmapBuffer c k ds d)) = length ds"
    by (simp add: buf_value_buffers_ctor)
qed (simp_all add: HashmapBuffer_def Let_def GetCapacity_def GetKeyDsize_def GetDevice_def
      Tensor_GetLength_def Tensor_GetDevice_def Tensor_GetDtype_def Tensor_new_def
      ByteSize_def Dtype_new_def)

lemma cells_SetItem: "length (tensor_cells (Tensor_SetItem t i v)) = length (tensor_cells t)"
  by (simp add: Tensor_SetItem_def)

lemma buffer_cell_counts_apply_operation:
  "buffer_cell_counts (apply_operation op b) = buffer_cell_counts b"
proof (cases op)
  case (WriteValue j i v)
  show ?thesis
  proof (cases "j < length (buf_value_buffers b)")
    case True
    then have "(map (\<lambda>t. length (tensor_cells t)) (buf_value_buffers b))
                 [j := length (tensor_cells (Tensor_SetItem (buf_value_buffers b ! j) i v))]
               = map (\<lambda>t. length (tensor_cells t)) (buf_value_buffers b)"
      by (simp add: cells_SetItem list_update_same_conv)
    then show ?thesis
      using True by (simp add: WriteValue buffer_cell_counts_def map_update)
  next
    case False
    then show ?thesis by (simp add: WriteValue)
  qed
qed (simp_all add: buffer_cell_counts_def cells_SetItem)

lemma buffer_cell_counts_apply_operations:
  "buffer_cell_counts (apply_operations ops b) = buffer_cell_counts b"
  unfolding apply_operations_def
  by (induction ops arbitrary: b) (simp_all add: buffer_cell_counts_apply_operation)

lemma buffer_cell_counts_ctor:
  "buffer_cell_counts (HashmapBuffer c k ds d) = (nat c, nat c, replicate (length ds) (nat c))"
proof -
  have "map (\<lambda>t. length (tensor_cells t)) (buf_value_buffers (HashmapBuffer c k ds d))
        = replicate (length ds) (nat c)"
    by (simp add: buf_value_buffers_ctor Tensor_new_def o_def map_replicate_const)
  then show ?thesis
    by (simp add: buffer_cell_counts_def) (simp add: HashmapBuffer_def Let_def Tensor_new_def)
qed

subsection \<open>Claims about the class\<close>

lemma GetType_heap_device:
  "GetType (Tensor_GetDevice (buf_heap (apply_operations ops (HashmapBuffer c k ds d)))) = GetType d"
  using accessors_from_headers(4) [OF buffer_headers_apply_operations, of ops "HashmapBuffer c k ds d"]
  by (simp add: GetDevice_def ctor_accessors(3) [unfolded GetDevice_def])

text \<open>
  Claim C3, as the constructor has it. After construction with capacity \<open>c\<close> the heap is a
  UInt32 tensor of length \<open>c\<close> none of whose cells has been written. On a device other than
  CUDA the heap top is the host counter, which is 0; it is the capacity only when \<open>c = 0\<close>.
  On a CUDA device it is a one-element Int32 tensor on that device whose cell has not been
  written.
\<close>

theorem constructor_leaves_free_list_unset:
  "Tensor_GetLength (GetIndexHeap (HashmapBuffer c k ds d)) = c \<and>
   Tensor_GetDtype (GetIndexHeap (HashmapBuffer c k ds d)) = UInt32 \<and>
   tensor_cells (GetIndexHeap (HashmapBuffer c k ds d)) = replicate (nat c) None \<and>
   (GetType d \<noteq> CUDA \<longrightarrow>
      GetHeapTopIndex (HashmapBuffer c k ds d) = Some 0 \<and>
      (map_option sint (GetHeapTopIndex (HashmapBuffer c k ds d)) = Some c \<longleftrightarrow> c = 0)) \<and>
   (GetType d = CUDA \<longrightarrow>
      GetHeapTopIndex (HashmapBuffer c k ds d) = None \<and>
      tensor_header (cuda (GetHeapTop (HashmapBuffer c k ds d))) = (1, Int32, d))"
  by (auto simp add: HashmapBuffer_def Let_def GetIndexHeap_def GetHeapTopIndex_def GetHeapTop_def
      Tensor_GetLength_def Tensor_GetDtype_def Tensor_GetDevice_def Tensor_new_def
      Tensor_Item_def HeapTop_default_def tensor_header_def)

theorem constructor_leaves_free_list_unset_witness:
  "GetType \<lparr>device_type = CPU, device_id = 0\<rparr> \<noteq> CUDA \<and>
   GetHeapTopIndex (HashmapBuffer 4 8 [4] \<lparr>device_type = CPU, device_id = 0\<rparr>) = Some 0 \<and>
   map_option sint (GetHeapTopIndex (HashmapBuffer 4 8 [4] \<lparr>device_type = CPU, device_id = 0\<rparr>))
     \<noteq> Some 4 \<and>
   map_option sint (GetHeapTopIndex (HashmapBuffer 0 8 [4] \<lparr>device_type = CPU, device_id = 0\<rparr>))
     = Some 0 \<and>
   GetType \<lparr>device_type = CUDA, device_id = 0\<rparr> = CUDA \<and>
   GetHeapTopIndex (HashmapBuffer 4 8 [4] \<lparr>device_type = CUDA, device_id = 0\<rparr>) = None \<and>
   tensor_cells (GetIndexHeap (HashmapBuffer 4 8 [4] \<lparr>device_type = CPU, device_id = 0\<rparr>))
     = [None, None, None, None]"
  using constructor_leaves_free_list_unset [of 4 8 "[4]" "\<lparr>device_type = CPU, device_id = 0\<rparr>"]
    constructor_leaves_free_list_unset [of 0 8 "[4]" "\<lparr>device_type = CPU, device_id = 0\<rparr>"]
    constructor_leaves_free_list_unset [of 4 8 "[4]" "\<lparr>device_type = CUDA, device_id = 0\<rparr>"]
  by (simp add: GetType_def numeral_eq_Suc)

text \<open>
  Claim C3 as stated fails: after construction with capacity 4 on the host, the heap top
  is not 4 and the heap does not hold 0, 1, 2, 3.
\<close>

theorem constructor_all_free_counterexample:
  "\<not> (GetHeapTopIndex (HashmapBuffer 4 8 [4] \<lparr>device_type = CPU, device_id = 0\<rparr>) = Some 4 \<and>
      map (Tensor_Item (GetIndexHeap (HashmapBuffer 4 8 [4] \<lparr>device_type = CPU, device_id = 0\<rparr>)))
        [0, 1, 2, 3] = [Some 0, Some 1, Some 2, Some 3])"
  by (simp add: HashmapBuffer_def Let_def GetHeapTopIndex_def GetType_def Tensor_GetDevice_def
      Tensor_new_def HeapTop_default_def)

text \<open>
  Claim C4. For a buffer constructed with \<open>n\<close> value sizes, at any time of its life,
  GetValueBuffer(i) fails with the out-of-range error that carries \<open>i\<close> and \<open>n\<close> exactly
  when \<open>i \<ge> n\<close> (always, when \<open>n = 0\<close>); when \<open>i < n\<close> it returns the \<open>i\<close>-th value
  buffer, a tensor of \<open>capacity\<close> elements of the \<open>i\<close>-th size on the buffer's device.
  The function returns a value only; there is no state for it to change.
\<close>

theorem GetValueBuffer_range:
  "(GetValueBuffer (apply_operations ops (HashmapBuffer c k ds d)) i
      = Inl (OutOfRange i (length ds)) \<longleftrightarrow> length ds \<le> i) \<and>
   (i < length ds \<longrightarrow>
      GetValueBuffer (apply_operations ops (HashmapBuffer c k ds d)) i
        = Inr (GetValueBuffers (apply_operations ops (HashmapBuffer c k ds d)) ! i) \<and>
      tensor_header (GetValueBuffers (apply_operations ops (HashmapBuffer c k ds d)) ! i)
        = (c, Dtype_new Object (ds ! i) (''_hash_v_'' @ to_string i), d))"
proof -
  let ?b = "apply_operations ops (HashmapBuffer c k ds d)"
  have len: "length (buf_value_buffers ?b) = length ds"
    using accessors_from_headers(7) [OF buffer_headers_apply_operations, of ops "HashmapBuffer c k ds d"]
    by (simp add: ctor_accessors(6))
  have hd: "map tensor_header (buf_value_buffers ?b)
            = map tensor_header (buf_value_buffers (HashmapBuffer c k ds d))"
    using buffer_headers_apply_operations [of ops "HashmapBuffer c k ds d"]
    by (simp add: buffer_headers_def)
  have "tensor_header (buf_value_buffers ?b ! i)
        = (c, Dtype_new Object (ds ! i) (''_hash_v_'' @ to_string i), d)" if "i < length ds"
  proof -
    have "tensor_header (buf_value_buffers ?b ! i) = map tensor_header (buf_value_buffers ?b) ! i"
      using that len by simp
    also have "\<dots> = tensor_header (buf_value_buffers (HashmapBuffer c k ds d) ! i)"
      using that by (simp add: hd ctor_accessors(6))
    also have "\<dots> = (c, Dtype_new Object (ds ! i) (''_hash_v_'' @ to_string i), d)"
      using that by (simp add: buf_value_buffers_ctor tensor_header_def Tensor_new_def)
    finally show ?thesis .
  qed
  then show ?thesis
    by (auto simp: GetValueBuffer_def GetValueBuffers_def len)
qed

theorem GetValueBuffer_range_witness:
  "GetValueBuffer (HashmapBuffer 4 8 [4, 12] \<lparr>device_type = CPU, device_id = 0\<rparr>) 2
      = Inl (OutOfRange 2 2) \<and>
   GetValueBuffer (HashmapBuffer 4 8 [] \<lparr>device_type = CPU, device_id = 0\<rparr>) 0
      = Inl (OutOfRange 0 0) \<and>
   (1::nat) < length [4, 12 :: int] \<and>
   tensor_header (GetValueBuffers (HashmapBuffer 4 8 [4, 12] \<lparr>device_type = CPU, device_id = 0\<rparr>) ! 1)
      = (4, Dtype_new Object 12 ''_hash_v_1'', \<lparr>device_type = CPU, device_id = 0\<rparr>)"
  using GetValueBuffer_range [of "[]" 4 8 "[4, 12]" "\<lparr>device_type = CPU, device_id = 0\<rparr>" 2]
    GetValueBuffer_range [of "[]" 4 8 "[]" "\<lparr>device_type = CPU, device_id = 0\<rparr>" 0]
    GetValueBuffer_range [of "[]" 4 8 "[4, 12]" "\<lparr>device_type = CPU, device_id = 0\<rparr>" 1]
  by (simp add: apply_operations_def to_string.simps digit_char_def)

text \<open>
  Claim C8. At any time of a buffer's life GetHeapTopIndex returns the current value of the
  counter that its device selects: on a device other than CUDA the host counter, so a store
  to it is what the next call returns, and neither a write to nor a replacement of the
  device tensor changes the result; on a CUDA device cell 0 of the device tensor, so a
  write to that cell of the constructed tensor is what the next call returns, and
  a store to the host counter does not change the result. The function returns a value
  only.
\<close>

theorem GetHeapTopIndex_selected_counter:
  "(GetType d \<noteq> CUDA \<longrightarrow>
      GetHeapTopIndex (apply_operations ops (HashmapBuffer c k ds d))
        = Some (cpu (GetHeapTop (apply_operations ops (HashmapBuffer c k ds d)))) \<and>
      GetHeapTopIndex (apply_operation (StoreHeapTopCpu v) (apply_operations ops (HashmapBuffer c k ds d)))
        = Some v \<and>
      GetHeapTopIndex (apply_operation (WriteHeapTopCuda w) (apply_operations ops (HashmapBuffer c k ds d)))
        = GetHeapTopIndex (apply_operations ops (HashmapBuffer c k ds d)) \<and>
      GetHeapTopIndex (apply_operation (AssignHeapTopCuda t) (apply_operations ops (HashmapBuffer c k ds d)))
        = GetHeapTopIndex (apply_operations ops (HashmapBuffer c k ds d))) \<and>
   (GetType d = CUDA \<longrightarrow>
      GetHeapTopIndex (apply_operations ops (HashmapBuffer c k ds d))
        = Tensor_Item (cuda (GetHeapTop (apply_operations ops (HashmapBuffer c k ds d)))) 0 \<and>
      GetHeapTopIndex (apply_operation (WriteHeapTopCuda w) (HashmapBuffer c k ds d)) = Some w \<and>
      GetHeapTopIndex (apply_operation (StoreHeapTopCpu v) (apply_operations ops (HashmapBuffer c k ds d)))
        = GetHeapTopIndex (apply_operations ops (HashmapBuffer c k ds d)))"
proof -
  let ?b = "apply_operations ops (HashmapBuffer c k ds d)"
  have dev: "GetType (Tensor_GetDevice (buf_heap ?b)) = GetType d"
    by (rule GetType_heap_device)
  have fresh: "GetType d = CUDA \<Longrightarrow>
      GetHeapTopIndex (apply_operation (WriteHeapTopCuda w) (HashmapBuffer c k ds d)) = Some w"
    by (simp add: HashmapBuffer_def Let_def GetHeapTopIndex_def Tensor_GetDevice_def
        Tensor_new_def Tensor_Item_def Tensor_SetItem_def)
  show ?thesis
    using dev fresh by (simp add: GetHeapTopIndex_def GetHeapTop_def)
qed

theorem GetHeapTopIndex_selected_counter_witness:
  "GetType \<lparr>device_type = CPU, device_id = 0\<rparr> \<noteq> CUDA \<and>
   GetHeapTopIndex (apply_operation (StoreHeapTopCpu 3)
      (apply_operations [WriteHeap 0 7, StoreHeapTopCpu 2]
         (HashmapBuffer 4 8 [4] \<lparr>device_type = CPU, device_id = 0\<rparr>))) = Some 3 \<and>
   GetType \<lparr>device_type = CUDA, device_id = 0\<rparr> = CUDA \<and>
   GetHeapTopIndex (apply_operation (WriteHeapTopCuda 3)
      (HashmapBuffer 4 8 [4] \<lparr>device_type = CUDA, device_id = 0\<rparr>)) = Some 3"
  using GetHeapTopIndex_selected_counter [of "\<lparr>device_type = CPU, device_id = 0\<rparr>"
      "[WriteHeap 0 7, StoreHeapTopCpu 2]" 4 8 "[4]" 3 3 Tensor_default]
    GetHeapTopIndex_selected_counter [of "\<lparr>device_type = CUDA, device_id = 0\<rparr>"
      "[]" 4 8 "[4]" 3 3 Tensor_default]
  by (simp add: GetType_def)

text \<open>
  Claim C9. For a buffer constructed with \<open>(capacity, dsize_key, dsize_values, device)\<close>,
  and after any sequence of the state changes open to a caller, GetCapacity, GetKeyDsize,
  GetValueDsizes and GetDevice return the four arguments; the heap, the key buffer and
  every value buffer report \<open>capacity\<close> as their length and hold that many cells.
\<close>

theorem accessors_fixed_for_lifetime:
  "GetCapacity (apply_operations ops (HashmapBuffer c k ds d)) = c \<and>
   GetKeyDsize (apply_operations ops (HashmapBuffer c k ds d)) = k \<and>
   GetValueDsizes (apply_operations ops (HashmapBuffer c k ds d)) = ds \<and>
   GetDevice (apply_operations ops (HashmapBuffer c k ds d)) = d \<and>
   Tensor_GetLength (GetIndexHeap (apply_operations ops (HashmapBuffer c k ds d))) = c \<and>
   Tensor_GetLength (GetKeyBuffer (apply_operations ops (HashmapBuffer c k ds d))) = c \<and>
   map Tensor_GetLength (GetValueBuffers (apply_operations ops (HashmapBuffer c k ds d)))
     = replicate (length ds) c \<and>
   buffer_cell_counts (apply_operations ops (HashmapBuffer c k ds d))
     = (nat c, nat c, replicate (length ds) (nat c))"
proof -
  let ?b = "HashmapBuffer c k ds d"
  note same = accessors_from_headers [OF buffer_headers_apply_operations, of ops ?b]
  have "GetCapacity (apply_operations ops ?b) = c"
    by (simp only: same(1) ctor_accessors(1))
  moreover have "GetKeyDsize (apply_operations ops ?b) = k"
    by (simp only: same(2) ctor_accessors(2))
  moreover have "GetValueDsizes (apply_operations ops ?b) = ds"
    by (simp only: same(3) GetValueDsizes_ctor)
  moreover have "GetDevice (apply_operations ops ?b) = d"
    by (simp only: same(4) ctor_accessors(3))
  moreover have "Tensor_GetLength (GetIndexHeap (apply_operations ops ?b)) = c"
    using same(1) ctor_accessors(1) [of c k ds d] by (simp add: GetCapacity_def GetIndexHeap_def)
  moreover have "Tensor_GetLength (GetKeyBuffer (apply_operations ops ?b)) = c"
    by (simp only: GetKeyBuffer_def same(5) ctor_accessors(4))
  moreover have "map Tensor_GetLength (GetValueBuffers (apply_operations ops ?b))
     = replicate (length ds) c"
    by (simp only: GetValueBuffers_def same(6) ctor_accessors(5))
  moreover have "buffer_cell_counts (apply_operations ops ?b)
     = (nat c, nat c, replicate (length ds) (nat c))"
    by (simp only: buffer_cell_counts_apply_operations buffer_cell_counts_ctor)
  ultimately show ?thesis by blast
qed

text \<open>
  Claim C10. The constructor accepts every capacity and reports it unchanged; the heap
  is a tensor of 4-byte UInt32 elements and the device counter one of 4-byte Int32
  elements. The host counter reads back a stored value exactly when the value lies in the signed 32-bit
  range, and a heap cell reads back an address modulo \<open>2^32\<close>. Hence, for a capacity
  \<open>c \<ge> 0\<close>, all counter values \<open>0..c\<close> and all addresses below \<open>c\<close> are read back
  unchanged exactly when \<open>c \<le> 2^31 - 1\<close>.
\<close>

theorem counter_and_address_widths:
  "GetCapacity (HashmapBuffer c k ds d) = c \<and>
   Tensor_GetDtype (GetIndexHeap (HashmapBuffer c k ds d)) = UInt32 \<and> ByteSize UInt32 = 4 \<and>
   (GetType d = CUDA \<longrightarrow>
      Tensor_GetDtype (cuda (GetHeapTop (HashmapBuffer c k ds d))) = Int32 \<and> ByteSize Int32 = 4) \<and>
   (GetType d \<noteq> CUDA \<longrightarrow>
      (map_option sint (GetHeapTopIndex
          (apply_operation (StoreHeapTopCpu (word_of_int v)) (HashmapBuffer c k ds d))) = Some v
       \<longleftrightarrow> - (2 ^ 31) \<le> v \<and> v < 2 ^ 31)) \<and>
   (i < nat c \<longrightarrow>
      map_option unat (Tensor_Item (GetIndexHeap
          (apply_operation (WriteHeap i (word_of_nat a)) (HashmapBuffer c k ds d))) i)
        = Some (a mod 2 ^ 32)) \<and>
   (0 \<le> c \<longrightarrow>
      ((\<forall>v. 0 \<le> v \<and> v \<le> c \<longrightarrow> sint (word_of_int v :: int32) = v) \<and>
       (\<forall>a. int a < c \<longrightarrow> unat (word_of_nat a :: addr_t) = a))
      = (c \<le> 2 ^ 31 - 1))"
proof -
  have sint_iff: "sint (word_of_int x :: int32) = x \<longleftrightarrow> - (2 ^ 31) \<le> x \<and> x < 2 ^ 31" for x
    by (simp add: signed_of_int signed_take_bit_int_eq_self_iff)
  have one: "GetCapacity (HashmapBuffer c k ds d) = c" by (rule ctor_accessors)
  have types: "Tensor_GetDtype (GetIndexHeap (HashmapBuffer c k ds d)) = UInt32 \<and> ByteSize UInt32 = 4 \<and>
   (GetType d = CUDA \<longrightarrow>
      Tensor_GetDtype (cuda (GetHeapTop (HashmapBuffer c k ds d))) = Int32 \<and> ByteSize Int32 = 4)"
    by (simp add: HashmapBuffer_def Let_def GetIndexHeap_def GetHeapTop_def Tensor_GetDtype_def
        Tensor_new_def ByteSize_def UInt32_def Int32_def Dtype_new_def)
  have two: "GetType d \<noteq> CUDA \<longrightarrow>
      (map_option sint (GetHeapTopIndex
          (apply_operation (StoreHeapTopCpu (word_of_int v)) (HashmapBuffer c k ds d))) = Some v
       \<longleftrightarrow> - (2 ^ 31) \<le> v \<and> v < 2 ^ 31)"
    by (simp add: HashmapBuffer_def Let_def GetHeapTopIndex_def Tensor_GetDevice_def
        Tensor_new_def sint_iff)
  have three: "i < nat c \<longrightarrow>
      map_option unat (Tensor_Item (GetIndexHeap
          (apply_operation (WriteHeap i (word_of_nat a)) (HashmapBuffer c k ds d))) i)
        = Some (a mod 2 ^ 32)"
    by (simp add: HashmapBuffer_def Let_def GetIndexHeap_def Tensor_new_def Tensor_Item_def
        Tensor_SetItem_def unat_of_nat)
  have four: "((\<forall>v. 0 \<le> v \<and> v \<le> c \<longrightarrow> sint (word_of_int v :: int32) = v) \<and>
       (\<forall>a. int a < c \<longrightarrow> unat (word_of_nat a :: addr_t) = a))
      = (c \<le> 2 ^ 31 - 1)" if c: "0 \<le> c"
  proof
    assume "(\<forall>v. 0 \<le> v \<and> v \<le> c \<longrightarrow> sint (word_of_int v :: int32) = v) \<and>
       (\<forall>a. int a < c \<longrightarrow> unat (word_of_nat a :: addr_t) = a)"
    then have "sint (word_of_int c :: int32) = c" using c by simp
    then show "c \<le> 2 ^ 31 - 1" by (simp add: sint_iff)
  next
    assume le: "c \<le> 2 ^ 31 - 1"
    have "sint (word_of_int v :: int32) = v" if "0 \<le> v \<and> v \<le> c" for v
      using that le by (simp add: sint_iff)
    moreover have "unat (word_of_nat a :: addr_t) = a" if "int a < c" for a
    proof -
      have "a < 2 ^ 32" using that le by simp
      then show ?thesis by (simp add: unat_of_nat)
    qed
    ultimately show "(\<forall>v. 0 \<le> v \<and> v \<le> c \<longrightarrow> sint (word_of_int v :: int32) = v) \<and>
       (\<forall>a. int a < c \<longrightarrow> unat (word_of_nat a :: addr_t) = a)" by blast
  qed
  from one types two three four show ?thesis by blast
qed

theorem counter_and_address_widths_witness:
  "GetType \<lparr>device_type = CPU, device_id = 0\<rparr> \<noteq> CUDA \<and>
   map_option sint (GetHeapTopIndex (apply_operation (StoreHeapTopCpu (word_of_int 2147483648))
      (HashmapBuffer 4 8 [4] \<lparr>device_type = CPU, device_id = 0\<rparr>))) \<noteq> Some 2147483648 \<and>
   (1::nat) < nat 4 \<and>
   map_option unat (Tensor_Item (GetIndexHeap (apply_operation (WriteHeap 1 (word_of_nat 4294967301))
      (HashmapBuffer 4 8 [4] \<lparr>device_type = CPU, device_id = 0\<rparr>))) 1) = Some 5 \<and>
   (0::int) \<le> 4"
  using counter_and_address_widths [of 4 8 "[4]" "\<lparr>device_type = CPU, device_id = 0\<rparr>"
      2147483648 1 4294967301]
  by (simp add: GetType_def)

section \<open>Properties of the free-list protocol\<close>

lemma Allocate_empty: "heap_top s = 0 \<Longrightarrow> Allocate s = (Inl PoolExhausted, s)"
  by (simp add: Allocate_def)

lemma Allocate_pop:
  "heap_top s \<noteq> 0 \<Longrightarrow>
   Allocate s = (Inr (heap s ! (heap_top s - 1)), s\<lparr>heap_top := heap_top s - 1\<rparr>)"
  by (simp add: Allocate_def Let_def)

lemma take_top_split:
  assumes "t \<noteq> 0" "t \<le> length xs"
  shows "take t xs = take (t - 1) xs @ [xs ! (t - 1)]"
proof -
  from assms obtain k where k: "t = Suc k" by (cases t) auto
  with assms have "k < length xs" by simp
  then show ?thesis by (simp add: k take_Suc_conv_app_nth)
qed

lemma free_set_Allocate:
  assumes "valid_state c s" "heap_top s \<noteq> 0"
  shows "heap s ! (heap_top s - 1) \<in> free_set s"
    and "heap s ! (heap_top s - 1) < c"
    and "free_set (snd (Allocate s)) = free_set s - {heap s ! (heap_top s - 1)}"
    and "valid_state c (snd (Allocate s))"
proof -
  let ?t = "heap_top s" and ?xs = "heap s"
  from assms have le: "?t \<le> length ?xs" and d: "distinct (take ?t ?xs)"
    and b: "list_all (\<lambda>a. a < c) (take ?t ?xs)" and len: "length ?xs = c"
    by (simp_all add: valid_state_def)
  have split: "take ?t ?xs = take (?t - 1) ?xs @ [?xs ! (?t - 1)]"
    using assms(2) le by (rule take_top_split)
  show "?xs ! (?t - 1) \<in> free_set s"
    unfolding free_set_def by (subst split) simp
  show "?xs ! (?t - 1) < c"
    using b by (subst (asm) split) simp
  have notin: "?xs ! (?t - 1) \<notin> set (take (?t - 1) ?xs)"
    using d by (subst (asm) split) simp
  have set_eq: "set (take ?t ?xs) = insert (?xs ! (?t - 1)) (set (take (?t - 1) ?xs))"
    by (subst split) simp
  show "free_set (snd (Allocate s)) = free_set s - {?xs ! (?t - 1)}"
    using notin by (simp add: free_set_def Allocate_pop [OF assms(2)] set_eq)
  have "distinct (take (?t - 1) ?xs @ [?xs ! (?t - 1)])"
    using d by (simp only: split [symmetric])
  moreover have "list_all (\<lambda>a. a < c) (take (?t - 1) ?xs @ [?xs ! (?t - 1)])"
    using b by (simp only: split [symmetric])
  ultimately have "distinct (take (?t - 1) ?xs)" "list_all (\<lambda>a. a < c) (take (?t - 1) ?xs)"
    by simp_all
  then show "valid_state c (snd (Allocate s))"
    using len le by (simp add: valid_state_def Allocate_pop [OF assms(2)])
qed

lemma heap_top_less:
  assumes "valid_state c s" "a < c" "a \<notin> free_set s"
  shows "heap_top s < c"
proof -
  let ?F = "set (take (heap_top s) (heap s))"
  from assms(1) have le: "heap_top s \<le> length (heap s)" and d: "distinct (take (heap_top s) (heap s))"
    and b: "list_all (\<lambda>a. a < c) (take (heap_top s) (heap s))"
    by (simp_all add: valid_state_def)
  have card: "card ?F = heap_top s"
    using d le by (simp add: distinct_card)
  have "?F \<subseteq> {..<c} - {a}"
    using b assms(3) by (auto simp: list_all_iff free_set_def)
  then have "card ?F \<le> card ({..<c} - {a})"
    by (intro card_mono) auto
  also have "\<dots> = c - 1" using assms(2) by simp
  finally show ?thesis using card assms(2) by simp
qed

lemma Free_eq:
  "Free a s = s\<lparr>heap := (heap s)[heap_top s := a], heap_top := heap_top s + 1\<rparr>"
  by (simp add: Free_def Let_def)

lemma free_set_Free:
  assumes "valid_state c s" "a < c" "a \<notin> free_set s"
  shows "free_set (Free a s) = insert a (free_set s)"
    and "valid_state c (Free a s)"
proof -
  have lt: "heap_top s < c" using assms by (rule heap_top_less)
  from assms(1) have len: "length (heap s) = c" and d: "distinct (take (heap_top s) (heap s))"
    and b: "list_all (\<lambda>a. a < c) (take (heap_top s) (heap s))"
    by (simp_all add: valid_state_def)
  have tk: "take (Suc (heap_top s)) ((heap s)[heap_top s := a]) = take (heap_top s) (heap s) @ [a]"
    using lt len by (simp add: take_Suc_conv_app_nth)
  show "free_set (Free a s) = insert a (free_set s)"
    by (simp add: free_set_def Free_eq tk)
  show "valid_state c (Free a s)"
    using lt len d b assms(2,3) by (simp add: valid_state_def Free_eq tk free_set_def)
qed

lemma Allocate_Free:
  assumes "valid_state c s" "a < c" "a \<notin> free_set s"
  shows "Allocate (Free a s) = (Inr a, s\<lparr>heap := (heap s)[heap_top s := a]\<rparr>)"
proof -
  have lt: "heap_top s < c" using assms by (rule heap_top_less)
  from assms(1) have len: "length (heap s) = c" by (simp add: valid_state_def)
  show ?thesis using lt len by (simp add: Allocate_def Free_eq Let_def)
qed

lemma valid_Initial: "valid_state c (InitialFreeList c)"
  by (simp add: valid_state_def InitialFreeList_def list_all_iff)






lemma run_calls_inv:
  assumes "run_calls cs s held = Some (s', held')"
    and "valid_state c s" "distinct held" "set held \<inter> free_set s = {}" "set held \<subseteq> {..<c}"
  shows "valid_state c s' \<and> distinct held' \<and> set held' \<inter> free_set s' = {} \<and>
         set held' \<subseteq> {..<c} \<and> free_set s' \<union> set held' = free_set s \<union> set held \<and>
         heap_top s' + length held' = heap_top s + length held"
  using assms
proof (induction cs s held rule: run_calls.induct)
  case (1 s held)
  then show ?case by simp
next
  case (2 cs s held)
  show ?case
  proof (cases "heap_top s = 0")
    case True
    with "2.prems"(1) show ?thesis by (simp add: Allocate_empty)
  next
    case False
    let ?a = "heap s ! (heap_top s - 1)" and ?s1 = "s\<lparr>heap_top := heap_top s - 1\<rparr>"
    have pop: "Allocate s = (Inr ?a, ?s1)" using False by (rule Allocate_pop)
    have s1: "snd (Allocate s) = ?s1" by (simp add: pop)
    note facts = free_set_Allocate [OF "2.prems"(2) False, unfolded s1]
    have run: "run_calls cs ?s1 (?a # held) = Some (s', held')"
      using "2.prems"(1) by (simp add: pop)
    have d: "distinct (?a # held)" using "2.prems"(3,4) facts(1) by auto
    have i: "set (?a # held) \<inter> free_set ?s1 = {}" using "2.prems"(4) facts(3) by auto
    have b: "set (?a # held) \<subseteq> {..<c}" using "2.prems"(5) facts(2) by auto
    from "2.IH" [OF pop [symmetric] refl run facts(4) d i b]
    show ?thesis using facts(1,3) False by auto
  qed
next
  case (3 a cs s held)
  show ?case
  proof (cases "a \<in> set held")
    case False
    with "3.prems"(1) show ?thesis by simp
  next
    case True
    have ac: "a < c" using True "3.prems"(5) by auto
    have nf: "a \<notin> free_set s" using True "3.prems"(4) by auto
    note facts = free_set_Free [OF "3.prems"(2) ac nf]
    have run: "run_calls cs (Free a s) (remove1 a held) = Some (s', held')"
      using "3.prems"(1) True by simp
    have d: "distinct (remove1 a held)" using "3.prems"(3) by simp
    have sr: "set (remove1 a held) = set held - {a}" using "3.prems"(3) by simp
    have i: "set (remove1 a held) \<inter> free_set (Free a s) = {}"
      using "3.prems"(4) by (auto simp: sr facts(1))
    have b: "set (remove1 a held) \<subseteq> {..<c}" using "3.prems"(5) by (auto simp: sr)
    have len: "length (remove1 a held) = length held - 1"
      using True by (simp add: length_remove1)
    have pos: "0 < length held" using True by (cases held) auto
    have top: "heap_top (Free a s) = heap_top s + 1" by (simp add: Free_eq)
    from "3.IH" [OF True run facts(2) d i b]
    show ?thesis using True pos by (auto simp: sr facts(1) len top)
  qed
qed

lemma balanced_restores:
  assumes "valid_state c s" "balanced cs s s'"
  shows "heap_top s' = heap_top s \<and> free_set s' = free_set s \<and> valid_state c s'"
  using run_calls_inv [of cs s "[]" s' "[]" c] assms by (simp add: balanced_def)

lemma Initial4: "InitialFreeList 4 = \<lparr>heap = [0, 1, 2, 3], heap_top = 4\<rparr>"
  by (simp add: InitialFreeList_def upt_rec)

subsection \<open>The state stored in a buffer\<close>


lemma host_counter_WriteHeap_fold:
  "cpu (buf_heap_top (fold apply_operation (map (\<lambda>i. WriteHeap i (f i)) xs) b)) = cpu (buf_heap_top b)"
  by (induction xs arbitrary: b) simp_all




subsection \<open>Claims about the protocol\<close>

text \<open>
  Claim C1. Allocate fails with PoolExhausted exactly when \<open>heap_top = 0\<close>, and then the
  state it returns is the state it was given. Otherwise it decrements \<open>heap_top\<close> by 1 and
  returns \<open>heap[heap_top]\<close> at the decremented index. In a state that satisfies the
  invariant for some capacity, the address returned was in the free set and is removed from
  it, and the invariant still holds.
\<close>

theorem Allocate_exhausted_or_pop:
  "(fst (Allocate s) = Inl PoolExhausted \<longleftrightarrow> heap_top s = 0) \<and>
   (heap_top s = 0 \<longrightarrow> Allocate s = (Inl PoolExhausted, s)) \<and>
   (heap_top s \<noteq> 0 \<longrightarrow>
      Allocate s = (Inr (heap s ! (heap_top s - 1)), s\<lparr>heap_top := heap_top s - 1\<rparr>)) \<and>
   (valid_state c s \<and> heap_top s \<noteq> 0 \<longrightarrow>
      heap s ! (heap_top s - 1) \<in> free_set s \<and>
      free_set (snd (Allocate s)) = free_set s - {heap s ! (heap_top s - 1)} \<and>
      valid_state c (snd (Allocate s)))"
proof -
  have "fst (Allocate s) = Inl PoolExhausted \<longleftrightarrow> heap_top s = 0"
    by (cases "heap_top s = 0") (simp_all add: Allocate_empty Allocate_pop)
  moreover have "heap_top s = 0 \<longrightarrow> Allocate s = (Inl PoolExhausted, s)"
    by (simp add: Allocate_empty)
  moreover have "heap_top s \<noteq> 0 \<longrightarrow>
      Allocate s = (Inr (heap s ! (heap_top s - 1)), s\<lparr>heap_top := heap_top s - 1\<rparr>)"
    by (simp add: Allocate_pop)
  moreover have "valid_state c s \<and> heap_top s \<noteq> 0 \<longrightarrow>
      heap s ! (heap_top s - 1) \<in> free_set s \<and>
      free_set (snd (Allocate s)) = free_set s - {heap s ! (heap_top s - 1)} \<and>
      valid_state c (snd (Allocate s))"
    using free_set_Allocate [of c s] by blast
  ultimately show ?thesis by blast
qed

theorem Allocate_exhausted_or_pop_witness:
  "Allocate \<lparr>heap = [0, 1, 2, 3], heap_top = 0\<rparr>
     = (Inl PoolExhausted, \<lparr>heap = [0, 1, 2, 3], heap_top = 0\<rparr>) \<and>
   valid_state 4 \<lparr>heap = [0, 1, 2, 3], heap_top = 4\<rparr> \<and>
   Allocate \<lparr>heap = [0, 1, 2, 3], heap_top = 4\<rparr>
     = (Inr 3, \<lparr>heap = [0, 1, 2, 3], heap_top = 3\<rparr>) \<and>
   free_set (snd (Allocate \<lparr>heap = [0, 1, 2, 3], heap_top = 4\<rparr>)) = {0, 1, 2}"
proof -
  have v: "valid_state 4 \<lparr>heap = [0, 1, 2, 3], heap_top = 4\<rparr>"
    by (simp add: valid_state_def)
  have f: "free_set \<lparr>heap = [0, 1, 2, 3], heap_top = 4\<rparr> - {3} = {0, 1, 2}"
    by (auto simp: free_set_def)
  show ?thesis
    using Allocate_exhausted_or_pop [of "\<lparr>heap = [0, 1, 2, 3], heap_top = 0\<rparr>" 4]
      Allocate_exhausted_or_pop [of "\<lparr>heap = [0, 1, 2, 3], heap_top = 4\<rparr>" 4] v f
    by (simp add: free_set_def)
qed

text \<open>
  Claim C2. For a state that satisfies the invariant and an address that is allocated
  (below the capacity and not in the free set), Free writes the address into
  \<open>heap[heap_top]\<close> at the old value of \<open>heap_top\<close> and then increments \<open>heap_top\<close> by 1.
  The write is inside the heap, the address joins the free set and the invariant is kept.
\<close>

theorem Free_pushes:
  assumes "valid_state c s" "a < c" "a \<notin> free_set s"
  shows "heap_top s < c \<and>
         Free a s = s\<lparr>heap := (heap s)[heap_top s := a], heap_top := heap_top s + 1\<rparr> \<and>
         heap (Free a s) ! heap_top s = a \<and>
         heap_top (Free a s) = heap_top s + 1 \<and>
         free_set (Free a s) = insert a (free_set s) \<and>
         valid_state c (Free a s)"
proof -
  have lt: "heap_top s < c" using assms by (rule heap_top_less)
  moreover have "length (heap s) = c" using assms(1) by (simp add: valid_state_def)
  ultimately have "heap (Free a s) ! heap_top s = a" by (simp add: Free_eq)
  with lt free_set_Free [OF assms] show ?thesis by (simp add: Free_eq)
qed

theorem Free_pushes_witness:
  "valid_state 4 \<lparr>heap = [0, 1, 2, 3], heap_top = 2\<rparr> \<and> (3::nat) < 4 \<and>
   3 \<notin> free_set \<lparr>heap = [0, 1, 2, 3], heap_top = 2\<rparr> \<and>
   Free 3 \<lparr>heap = [0, 1, 2, 3], heap_top = 2\<rparr> = \<lparr>heap = [0, 1, 3, 3], heap_top = 3\<rparr> \<and>
   free_set (Free 3 \<lparr>heap = [0, 1, 2, 3], heap_top = 2\<rparr>) = {0, 1, 3}"
proof -
  have v: "valid_state 4 \<lparr>heap = [0, 1, 2, 3], heap_top = 2\<rparr>"
    by (simp add: valid_state_def)
  have n: "3 \<notin> free_set \<lparr>heap = [0, 1, 2, 3], heap_top = 2\<rparr>"
    by (simp add: free_set_def)
  have f: "insert 3 (free_set \<lparr>heap = [0, 1, 2, 3], heap_top = 2\<rparr>) = {0, 1, 3}"
    by (auto simp: free_set_def)
  show ?thesis using Free_pushes [OF v _ n] v n f by (simp add: free_set_def)
qed

text \<open>
  Claim C5. Address reuse is last-in first-out: an Allocate that directly follows the Free
  of an allocated address returns that address, be the address allocated before or by the
  Allocate just made. With capacity 4 and all of 0, 1, 2, 3 free, the calls Allocate,
  Allocate, Free(3), Allocate return 3, 2 and then 3.
\<close>

theorem reuse_is_LIFO:
  "(valid_state c s \<and> a < c \<and> a \<notin> free_set s \<longrightarrow> fst (Allocate (Free a s)) = Inr a) \<and>
   (valid_state c s \<and> Allocate s = (Inr a, s') \<longrightarrow> fst (Allocate (Free a s')) = Inr a) \<and>
   (case Allocate (InitialFreeList 4) of (r1, s1) \<Rightarrow>
     case Allocate s1 of (r2, s2) \<Rightarrow>
       case Allocate (Free 3 s2) of (r3, s3) \<Rightarrow>
         r1 = Inr 3 \<and> r2 = Inr 2 \<and> r3 = Inr 3)"
proof -
  have one: "fst (Allocate (Free a s)) = Inr a"
    if "valid_state c s" "a < c" "a \<notin> free_set s" for c s a
    using Allocate_Free [OF that] by simp
  have two: "fst (Allocate (Free a s')) = Inr a"
    if v: "valid_state c s" and al: "Allocate s = (Inr a, s')"
  proof -
    have nz: "heap_top s \<noteq> 0" using al by (auto simp: Allocate_def split: if_splits)
    have a: "a = heap s ! (heap_top s - 1)" and s': "s' = snd (Allocate s)"
      using al nz by (simp_all add: Allocate_pop)
    note facts = free_set_Allocate [OF v nz]
    have "a \<notin> free_set s'" using facts(3) by (simp add: a s')
    moreover have "a < c" using facts(2) by (simp add: a)
    moreover have "valid_state c s'" using facts(4) by (simp add: s')
    ultimately show ?thesis using one [of c s' a] by blast
  qed
  have three: "(case Allocate (InitialFreeList 4) of (r1, s1) \<Rightarrow>
     case Allocate s1 of (r2, s2) \<Rightarrow>
       case Allocate (Free 3 s2) of (r3, s3) \<Rightarrow>
         r1 = Inr 3 \<and> r2 = Inr 2 \<and> r3 = Inr 3)"
    by (simp add: Initial4 Allocate_def Free_def Let_def)
  from one two three show ?thesis by blast
qed

theorem reuse_is_LIFO_witness:
  "valid_state 4 \<lparr>heap = [0, 1, 2, 3], heap_top = 3\<rparr> \<and>
   Allocate \<lparr>heap = [0, 1, 2, 3], heap_top = 3\<rparr> = (Inr 2, \<lparr>heap = [0, 1, 2, 3], heap_top = 2\<rparr>) \<and>
   (2::nat) < 4 \<and> 2 \<notin> free_set \<lparr>heap = [0, 1, 2, 3], heap_top = 2\<rparr> \<and>
   valid_state 4 \<lparr>heap = [0, 1, 2, 3], heap_top = 2\<rparr> \<and>
   fst (Allocate (Free 2 \<lparr>heap = [0, 1, 2, 3], heap_top = 2\<rparr>)) = Inr 2"
proof -
  have v3: "valid_state 4 \<lparr>heap = [0, 1, 2, 3], heap_top = 3\<rparr>"
    and v2: "valid_state 4 \<lparr>heap = [0, 1, 2, 3], heap_top = 2\<rparr>"
    by (simp_all add: valid_state_def)
  have al: "Allocate \<lparr>heap = [0, 1, 2, 3], heap_top = 3\<rparr>
              = (Inr 2, \<lparr>heap = [0, 1, 2, 3], heap_top = 2\<rparr>)"
    by (simp add: Allocate_def Let_def)
  have n: "2 \<notin> free_set \<lparr>heap = [0, 1, 2, 3], heap_top = 2\<rparr>"
    by (simp add: free_set_def)
  show ?thesis
    using reuse_is_LIFO [of 4 "\<lparr>heap = [0, 1, 2, 3], heap_top = 2\<rparr>" 2
        "\<lparr>heap = [0, 1, 2, 3], heap_top = 2\<rparr>"]
      reuse_is_LIFO [of 4 "\<lparr>heap = [0, 1, 2, 3], heap_top = 3\<rparr>" 2
        "\<lparr>heap = [0, 1, 2, 3], heap_top = 2\<rparr>"] v3 v2 al n
    by simp
qed




text \<open>
  Claim C7. A balanced sequence of calls (no over-allocation, every Free names an address
  the sequence allocated and has not yet freed, nothing held at the end), run from a state
  that satisfies the invariant, ends with \<open>heap_top\<close> at its original value and with the
  original free set.
\<close>

theorem balanced_calls_restore:
  assumes "valid_state c s" "balanced cs s s'"
  shows "heap_top s' = heap_top s \<and> free_set s' = free_set s"
  using balanced_restores [OF assms] by simp

theorem balanced_calls_restore_witness:
  "valid_state 4 (InitialFreeList 4) \<and>
   balanced [CallAllocate, CallAllocate, CallFree 3, CallFree 2] (InitialFreeList 4)
     \<lparr>heap = [0, 1, 3, 2], heap_top = 4\<rparr> \<and>
   heap_top \<lparr>heap = [0, 1, 3, 2], heap_top = 4\<rparr> = heap_top (InitialFreeList 4) \<and>
   free_set \<lparr>heap = [0, 1, 3, 2], heap_top = 4\<rparr> = free_set (InitialFreeList 4)"
proof -
  have v: "valid_state 4 (InitialFreeList 4)" by (rule valid_Initial)
  have b: "balanced [CallAllocate, CallAllocate, CallFree 3, CallFree 2] (InitialFreeList 4)
     \<lparr>heap = [0, 1, 3, 2], heap_top = 4\<rparr>"
    by (simp add: balanced_def Initial4 Allocate_def Free_def Let_def)
  show ?thesis using balanced_calls_restore [OF v b] v b by simp
qed

end
